theory Spec2Isabelle
  imports Main "HOL-Library.Word" "HOL-Library.Sublist"
begin

unbundle bit_operations_syntax

section \<open>The EP0 registrar of tezsign: data model\<close>

text \<open>
  The program under study is the FunctionFS registrar (package \<open>main\<close>, function
  \<open>drainEP0Events\<close>): it reads event frames from the EP0 file, answers one vendor
  control request and stalls every other SETUP.  Go's \<open>byte\<close>, \<open>uint16\<close> and
  \<open>uint32\<close> are machine words.
\<close>

type_synonym byte = "8 word"
type_synonym u16 = "16 word"
type_synonym u32 = "32 word"

text \<open>
  Modelled from the spec: the struct \<open>ctrlReq\<close> is declared outside the given
  sources; the spec's SetupPacket has the five fields of the USB SETUP packet, and the
  loop reads \<open>bmRequestType\<close>, \<open>bRequest\<close> and \<open>wLength\<close> of it.
\<close>

record ctrlReq =
  bmRequestType :: byte
  bRequest :: byte
  wValue :: u16
  wIndex :: u16
  wLength :: u16

text \<open>
  The build constants \<open>evSize\<close>, \<open>evTypeSetup\<close>, \<open>bmReqTypeVendorIn\<close>,
  \<open>vendorReqReady\<close> and \<open>protoVersion\<close> are declared outside the given sources.
  They are parameters of the model.  Their types are those the loop forces on them:
  \<open>evSize\<close> is a slice length, \<open>evTypeSetup\<close> is compared with an \<open>int\<close>, the two
  request constants with \<open>uint8\<close> fields, and \<open>protoVersion\<close> is passed to
  \<open>PutUint16\<close>.
\<close>

record build_consts =
  evSize :: nat
  evTypeSetup :: int
  bmReqTypeVendorIn :: byte
  vendorReqReady :: byte
  protoVersion :: u16

text \<open>\<open>time.Duration\<close> counts nanoseconds; \<open>time.Second\<close> is \<open>1000000000\<close>.\<close>

definition Second :: int where
  "Second = 1000000000"

definition ep0ReadRetryDelay :: int where
  "ep0ReadRetryDelay = Second"

subsection \<open>The device file and the logger as seen by the loop\<close>

text \<open>
  An error value returned by \<open>Read\<close> or \<open>Write\<close>: either one for which
  \<open>errors.Is(err, io.EOF)\<close> holds, or any other, identified by a number.
\<close>

datatype io_err = EOF | Errno nat

text \<open>
  What one call \<open>ep0.Read(buf)\<close> returns: an error, or \<open>n\<close> bytes with a nil
  error (\<open>ReadOk d\<close>, with \<open>n = length d\<close>).
\<close>

datatype read_result = ReadErr io_err | ReadOk "byte list"

text \<open>
  What the surroundings supply to one iteration of the loop: the result of its read,
  the value \<open>ready.Load()\<close> has in this iteration, and the error (if any) of the
  write, should the iteration write.
\<close>

record io_step =
  read_res :: read_result
  ready_val :: u32
  write_res :: "io_err option"

datatype level = Info | Warn | Error

datatype logval = VByte byte | VU16 u16 | VInt int | VErr io_err | VDur int

text \<open>The observable actions of the loop, in the order in which it performs them.\<close>

datatype event =
    EvRead
  | EvWrite "byte list"
  | EvLog level string "(string \<times> logval) list"
  | EvSleep int

fun writes_of :: "event list \<Rightarrow> byte list list" where
  "writes_of [] = []"
| "writes_of (EvWrite bs # es) = bs # writes_of es"
| "writes_of (_ # es) = writes_of es"

section \<open>The control-request codec\<close>

definition le_uint16 :: "byte \<Rightarrow> byte \<Rightarrow> u16" where
  "le_uint16 lo hi = ucast lo OR push_bit 8 (ucast hi)"

text \<open>
  Modelled from the spec: \<open>parseCtrlReq\<close> is called by the loop but defined outside
  the given sources.  The spec (4.1 and the wire format of section 6): given exactly 8
  bytes \<open>[type:1][request:1][value:2 LE][index:2 LE][length:2 LE]\<close>, produce the
  packet; there is no result for any other input, which is the caller's concern.
\<close>

fun parseCtrlReq :: "byte list \<Rightarrow> ctrlReq option" where
  "parseCtrlReq [b0, b1, b2, b3, b4, b5, b6, b7] =
     Some \<lparr> bmRequestType = b0, bRequest = b1, wValue = le_uint16 b2 b3,
            wIndex = le_uint16 b4 b5, wLength = le_uint16 b6 b7 \<rparr>"
| "parseCtrlReq _ = None"

section \<open>The vendor reply\<close>

text \<open>Go's builtin \<open>copy(dst, src)\<close>: the first \<open>min (len dst) (len src)\<close> bytes.\<close>

definition copy_go :: "byte list \<Rightarrow> byte list \<Rightarrow> byte list" where
  "copy_go dst src = (let n = min (length dst) (length src) in take n src @ drop n dst)"

text \<open>\<open>binary.LittleEndian.PutUint16(b, v)\<close>: \<open>b[0] = byte(v); b[1] = byte(v >> 8)\<close>.\<close>

definition PutUint16 :: "byte list \<Rightarrow> u16 \<Rightarrow> byte list" where
  "PutUint16 b v = b[0 := ucast v, 1 := ucast (drop_bit 8 v)]"

text \<open>\<open>[]byte("TZSG")\<close>.\<close>

definition tag_bytes :: "byte list" where
  "tag_bytes = map of_char ''TZSG''"

text \<open>
  Lines 54 to 57: the array \<open>reply\<close> starts as eight zero bytes; the tag is copied
  into \<open>reply[:4]\<close>, the version is put into \<open>reply[4:6]\<close>, and \<open>reply[6]\<close> is the
  value of the readiness flag converted to \<open>byte\<close>.
\<close>

definition vendorReply :: "u16 \<Rightarrow> u32 \<Rightarrow> byte list" where
  "vendorReply pv r =
     (let reply = replicate 8 (0 :: byte);
          reply = copy_go (take 4 reply) tag_bytes @ drop 4 reply;
          reply = take 4 reply @ PutUint16 (take 2 (drop 4 reply)) pv @ drop 6 reply;
          reply = reply[6 := ucast r]
      in reply)"

text \<open>
  Lines 60 to 63: \<open>wlen := int(req.wLength)\<close>, lowered to \<open>len(reply)\<close> when it is
  larger.
\<close>

definition clamp_wlen :: "u16 \<Rightarrow> byte list \<Rightarrow> nat" where
  "clamp_wlen wl reply = (let wlen = unat wl in if wlen > length reply then length reply else wlen)"

section \<open>The event loop\<close>

definition isReadyReq :: "build_consts \<Rightarrow> ctrlReq \<Rightarrow> bool" where
  "isReadyReq c req \<longleftrightarrow> bmRequestType req = bmReqTypeVendorIn c \<and> bRequest req = vendorReqReady c"

text \<open>The log line written when a write returns an error, none otherwise.\<close>

definition log_write_err :: "string \<Rightarrow> io_err option \<Rightarrow> event list" where
  "log_write_err msg w = (case w of None \<Rightarrow> [] | Some e \<Rightarrow> [EvLog Error msg [(''err'', VErr e)]])"

text \<open>
  Lines 50 to 75: what the loop does with a decoded SETUP packet.  \<open>rdy\<close> is the value
  of \<open>ready.Load()\<close>, \<open>w\<close> the error of the write.
\<close>

definition handleSetup :: "build_consts \<Rightarrow> ctrlReq \<Rightarrow> u32 \<Rightarrow> io_err option \<Rightarrow> event list" where
  "handleSetup c req rdy w =
     EvLog Info ''parsed''
       [(''type'', VByte (bmRequestType req)), (''request'', VByte (bRequest req)),
        (''length'', VU16 (wLength req))] #
     (if isReadyReq c req then
        (let reply = vendorReply (protoVersion c) rdy;
             wlen = clamp_wlen (wLength req) reply
         in EvWrite (take wlen reply) # log_write_err ''ep0 write vendor reply'' w)
      else
        EvLog Warn ''Unhandled SETUP request, STALLING''
          [(''type'', VByte (bmRequestType req)), (''req'', VByte (bRequest req))] #
        EvWrite [] # log_write_err ''ep0 write ZLP/STALL failed'' w)"

text \<open>
  How one pass through the body of the \<open>for\<close> ends: with \<open>continue\<close> (or by reaching
  the end of the body), with \<open>return\<close>, or with a run-time panic (an index out of
  range).
\<close>

datatype ctl = Continue | Return | Panic

text \<open>
  Lines 25 to 75: one pass through the body.  The buffer \<open>buf\<close> is allocated once,
  before the loop, and a read overwrites its first \<open>n\<close> bytes; a read never returns
  more bytes than the buffer holds.  When the read returns an error the loop does not
  look at \<open>n\<close> or at the buffer, which the model leaves as it was.  \<open>buf[8]\<close> panics
  when the buffer has no byte 8; \<open>int(buf[8])\<close> is the unsigned value of the byte.
\<close>

definition iteration :: "build_consts \<Rightarrow> byte list \<Rightarrow> io_step \<Rightarrow> ctl \<times> byte list \<times> event list" where
  "iteration c buf s =
     (case read_res s of
        ReadErr e \<Rightarrow>
          if e = EOF then (Return, buf, [EvRead])
          else (Continue, buf,
                [EvRead,
                 EvLog Warn ''ep0 read events failed; retrying''
                   [(''err'', VErr e), (''delay'', VDur ep0ReadRetryDelay)],
                 EvSleep ep0ReadRetryDelay])
      | ReadOk d \<Rightarrow>
          (let n = min (length d) (length buf);
               buf' = take n d @ drop n buf
           in if n < evSize c then
                (Continue, buf', [EvRead, EvLog Warn ''ep0 read event too short'' [(''n'', VInt (int n))]])
              else if length buf' \<le> 8 then (Panic, buf', [EvRead])
              else if uint (buf' ! 8) \<noteq> evTypeSetup c then (Continue, buf', [EvRead])
              else (case parseCtrlReq (take 8 buf') of
                      None \<Rightarrow> (Panic, buf', [EvRead])
                    | Some req \<Rightarrow>
                        (Continue, buf', EvRead # handleSetup c req (ready_val s) (write_res s)))))"

text \<open>
  The state of the loop after the reads supplied so far: \<open>Reading\<close> when it is in the
  next call of \<open>Read\<close>, which has not returned; \<open>Stopped\<close> when \<open>drainEP0Events\<close>
  has returned; \<open>Panicked\<close> when it has panicked.
\<close>

datatype status = Reading | Stopped | Panicked

fun prepend :: "event list \<Rightarrow> status \<times> byte list \<times> event list \<Rightarrow> status \<times> byte list \<times> event list" where
  "prepend es (st, buf, es') = (st, buf, es @ es')"

fun loop :: "build_consts \<Rightarrow> byte list \<Rightarrow> io_step list \<Rightarrow> status \<times> byte list \<times> event list" where
  "loop c buf [] = (Reading, buf, [])"
| "loop c buf (s # ss) =
     (case iteration c buf s of
        (Return, buf', es) \<Rightarrow> (Stopped, buf', es)
      | (Panic, buf', es) \<Rightarrow> (Panicked, buf', es)
      | (Continue, buf', es) \<Rightarrow> prepend es (loop c buf' ss))"

text \<open>Line 22 and the loop: \<open>buf := make([]byte, evSize)\<close>.\<close>

definition drainEP0Events :: "build_consts \<Rightarrow> io_step list \<Rightarrow> status \<times> byte list \<times> event list" where
  "drainEP0Events c script = loop c (replicate (evSize c) 0) script"

text \<open>
  An instance of the build constants, for running the model on concrete frames: the
  frame of the comment in the source has 12 bytes and event type 4; the request type is
  vendor, device-to-host, and the request code is that of the comment's frame.
\<close>

definition sample_consts :: build_consts where
  "sample_consts =
     \<lparr> evSize = 12, evTypeSetup = 4, bmReqTypeVendorIn = 0xC1, vendorReqReady = 90,
       protoVersion = 1 \<rparr>"

section \<open>Words and bytes\<close>

lemma unat_ucast_byte: "unat (ucast (w :: 'a::len word) :: byte) = unat w mod 256"
  by (simp add: unsigned_ucast_eq take_bit_eq_mod)

lemma unat_ucast_hi: "unat (ucast (drop_bit 8 (pv::u16)) :: byte) = unat pv div 256"
proof -
  have "unat pv < 65536" using unsigned_less [of pv, where 'a = nat] by simp
  then have "unat pv div 256 < 256" by simp
  moreover have "unat (ucast (drop_bit 8 pv) :: byte) = drop_bit 8 (unat pv) mod 256"
    by (simp only: unat_ucast_byte unat_drop_bit_eq)
  ultimately show ?thesis
    by (simp add: drop_bit_eq_div)
qed

lemma unat_le_uint16: "unat (le_uint16 lo hi) = unat lo + 256 * unat hi"
proof -
  have lo: "unat lo < 256" using unsigned_less [of lo, where 'a = nat] by simp
  have hi: "unat hi < 256" using unsigned_less [of hi, where 'a = nat] by simp
  have a: "unat (ucast lo :: u16) = unat lo"
    using lo by (simp add: unsigned_ucast_eq take_bit_eq_mod)
  have "unat (push_bit 8 (ucast hi :: u16)) = take_bit 16 (push_bit 8 (take_bit 16 (unat hi)))"
    by (simp only: unsigned_push_bit_eq unsigned_ucast_eq) simp
  then have b: "unat (push_bit 8 (ucast hi :: u16)) = 256 * unat hi"
    using hi by (simp add: take_bit_eq_mod push_bit_eq_mult)
  have disj: "\<not> bit (unat lo) n \<or> \<not> bit (256 * unat hi) n" for n
  proof (cases "n < 8")
    case True
    have "256 * unat hi = push_bit 8 (unat hi)" by (simp add: push_bit_eq_mult)
    then show ?thesis using True by (simp add: bit_push_bit_iff)
  next
    case False
    have "unat lo = take_bit 8 (unat lo)" using lo by (simp add: take_bit_eq_mod)
    then have "bit (unat lo) n = bit (take_bit 8 (unat lo)) n" by simp
    then show ?thesis using False by (simp add: bit_take_bit_iff)
  qed
  have "unat (le_uint16 lo hi) = unat lo OR 256 * unat hi"
    unfolding le_uint16_def by (simp only: unsigned_or_eq a b)
  also have "\<dots> = unat lo + 256 * unat hi"
    using disjunctive_add [OF disj] by simp
  finally show ?thesis .
qed

lemma replicate8: "replicate 8 x = [x, x, x, x, x, x, x, x]"
  by (simp add: numeral_eq_Suc)

lemma vendorReply_bytes:
  "vendorReply pv r = [0x54, 0x5A, 0x53, 0x47, ucast pv, ucast (drop_bit 8 pv), ucast r, 0]"
  unfolding vendorReply_def copy_go_def PutUint16_def tag_bytes_def Let_def replicate8
  by (simp add: numeral_eq_Suc)

section \<open>One pass through the loop body\<close>

lemma length8_cases:
  assumes "length b = 8"
  obtains b0 b1 b2 b3 b4 b5 b6 b7 where "b = [b0, b1, b2, b3, b4, b5, b6, b7]"
  using assms by (auto simp: numeral_eq_Suc length_Suc_conv)

lemma full_read_buf:
  assumes "length buf = evSize c" "evSize c \<le> length d"
  shows "min (length d) (length buf) = evSize c"
    and "take (evSize c) d @ drop (evSize c) buf = take (evSize c) d"
  using assms by simp_all

lemma iteration_eof:
  "read_res s = ReadErr EOF \<Longrightarrow> iteration c buf s = (Return, buf, [EvRead])"
  by (simp add: iteration_def)

lemma iteration_fail:
  "read_res s = ReadErr e \<Longrightarrow> e \<noteq> EOF \<Longrightarrow>
   iteration c buf s =
     (Continue, buf,
      [EvRead,
       EvLog Warn ''ep0 read events failed; retrying''
         [(''err'', VErr e), (''delay'', VDur ep0ReadRetryDelay)],
       EvSleep ep0ReadRetryDelay])"
  by (simp add: iteration_def)

lemma iteration_short:
  assumes "read_res s = ReadOk d" "length buf = evSize c" "length d < evSize c"
  shows "iteration c buf s =
     (Continue, d @ drop (length d) buf,
      [EvRead, EvLog Warn ''ep0 read event too short'' [(''n'', VInt (int (length d)))]])"
  using assms by (simp add: iteration_def Let_def min_def)

lemma iteration_not_setup:
  assumes "read_res s = ReadOk d" "length buf = evSize c" "evSize c \<le> length d"
    and "8 < evSize c" "uint (d ! 8) \<noteq> evTypeSetup c"
  shows "iteration c buf s = (Continue, take (evSize c) d, [EvRead])"
  using assms by (simp add: iteration_def Let_def full_read_buf)

lemma iteration_setup:
  assumes "read_res s = ReadOk d" "length buf = evSize c" "evSize c \<le> length d"
    and "8 < evSize c" "uint (d ! 8) = evTypeSetup c" "parseCtrlReq (take 8 d) = Some req"
  shows "iteration c buf s =
     (Continue, take (evSize c) d, EvRead # handleSetup c req (ready_val s) (write_res s))"
  using assms by (simp add: iteration_def Let_def full_read_buf min_absorb1)

lemma parse_take8:
  assumes "8 \<le> length d"
  shows "parseCtrlReq (take 8 d) \<noteq> None"
proof -
  have "length (take 8 d) = 8" using assms by simp
  then obtain b0 b1 b2 b3 b4 b5 b6 b7 where "take 8 d = [b0, b1, b2, b3, b4, b5, b6, b7]"
    by (rule length8_cases)
  then show ?thesis by simp
qed

lemma iteration_length:
  assumes "length buf = evSize c"
  shows "length (fst (snd (iteration c buf s))) = evSize c"
  using assms by (auto simp: iteration_def Let_def split: read_result.splits option.splits)

lemma iteration_no_panic:
  assumes "length buf = evSize c" "8 < evSize c"
  shows "fst (iteration c buf s) \<noteq> Panic"
proof (cases "read_res s")
  case (ReadErr e)
  then show ?thesis by (simp add: iteration_def)
next
  case (ReadOk d)
  show ?thesis
  proof (cases "length d < evSize c")
    case True
    then show ?thesis using ReadOk assms by (simp add: iteration_short)
  next
    case False
    then have full: "evSize c \<le> length d" by simp
    show ?thesis
    proof (cases "uint (d ! 8) = evTypeSetup c")
      case True
      from full assms have "parseCtrlReq (take 8 d) \<noteq> None" by (intro parse_take8) simp
      then obtain req where "parseCtrlReq (take 8 d) = Some req" by auto
      then show ?thesis using ReadOk assms full True by (simp add: iteration_setup)
    next
      case False
      then show ?thesis using ReadOk assms full by (simp add: iteration_not_setup)
    qed
  qed
qed

lemma iteration_return_iff:
  "fst (iteration c buf s) = Return \<longleftrightarrow> read_res s = ReadErr EOF"
  by (auto simp: iteration_def Let_def split: read_result.splits option.splits)

lemma loop_append:
  "loop c buf (xs @ ys) =
     (case loop c buf xs of
        (Reading, b, es) \<Rightarrow> prepend es (loop c b ys)
      | r \<Rightarrow> r)"
proof (induction xs arbitrary: buf)
  case Nil
  show ?case by (cases "loop c buf ys") simp
next
  case (Cons x xs)
  obtain k b es where it: "iteration c buf x = (k, b, es)" by (cases "iteration c buf x")
  show ?case
  proof (cases k)
    case Continue
    obtain st b' es' where l: "loop c b xs = (st, b', es')" by (cases "loop c b xs")
    obtain st2 b2 es2 where l2: "loop c b' ys = (st2, b2, es2)" by (cases "loop c b' ys")
    show ?thesis using it Continue l l2 Cons.IH [of b] by (cases st) simp_all
  next
    case Return
    then show ?thesis using it by simp
  next
    case Panic
    then show ?thesis using it by simp
  qed
qed

lemma loop_length:
  assumes "length buf = evSize c"
  shows "length (fst (snd (loop c buf xs))) = evSize c"
  using assms
proof (induction xs arbitrary: buf)
  case Nil
  then show ?case by simp
next
  case (Cons x xs)
  obtain k b es where it: "iteration c buf x = (k, b, es)" by (cases "iteration c buf x")
  with Cons.prems have lb: "length b = evSize c" using iteration_length [of buf c x] by simp
  obtain st b' es' where l: "loop c b xs = (st, b', es')" by (cases "loop c b xs")
  with Cons.IH [OF lb] have "length b' = evSize c" by simp
  then show ?case using it lb l Cons.prems by (cases k) simp_all
qed

lemma drain_extend:
  assumes "drainEP0Events c pre = (Reading, buf, es0)"
  shows "drainEP0Events c (pre @ ss) = prepend es0 (loop c buf ss)"
    and "length buf = evSize c"
proof -
  show "drainEP0Events c (pre @ ss) = prepend es0 (loop c buf ss)"
    using assms by (simp add: drainEP0Events_def loop_append)
  show "length buf = evSize c"
    using assms loop_length [of "replicate (evSize c) 0" c pre]
    by (simp add: drainEP0Events_def)
qed

lemma loop_status:
  assumes "length buf = evSize c" "8 < evSize c"
  shows "fst (loop c buf ss) = (if \<exists>s\<in>set ss. read_res s = ReadErr EOF then Stopped else Reading)"
  using assms(1)
proof (induction ss arbitrary: buf)
  case Nil
  then show ?case by simp
next
  case (Cons x xs)
  obtain k b es where it: "iteration c buf x = (k, b, es)" by (cases "iteration c buf x")
  with Cons.prems have lb: "length b = evSize c" using iteration_length [of buf c x] by simp
  have np: "k \<noteq> Panic" using iteration_no_panic [OF Cons.prems assms(2), of x] it by simp
  have ret: "k = Return \<longleftrightarrow> read_res x = ReadErr EOF" using iteration_return_iff [of c buf x] it by simp
  obtain st b' es' where l: "loop c b xs = (st, b', es')" by (cases "loop c b xs")
  show ?case using it np ret l Cons.IH [OF lb] by (cases k) auto
qed

section \<open>What the loop writes for a SETUP packet, and how it goes on\<close>

lemma handleSetup_ready:
  assumes "isReadyReq c req"
  shows "writes_of (handleSetup c req rdy w) =
     [take (min (unat (wLength req)) 8) (vendorReply (protoVersion c) rdy)]"
  using assms
  by (cases w) (simp_all add: handleSetup_def Let_def clamp_wlen_def log_write_err_def vendorReply_bytes min_def)

lemma handleSetup_stall:
  assumes "\<not> isReadyReq c req"
  shows "writes_of (handleSetup c req rdy w) = [[]]"
    and "EvRead \<notin> set (handleSetup c req rdy w)"
  using assms
  by (cases w; simp add: handleSetup_def log_write_err_def)+

lemma prepend_prepend: "prepend es (prepend es' r) = prepend (es @ es') r"
  by (cases r) simp

lemma loop_step_continue:
  assumes "iteration c buf s = (Continue, buf', es)"
  shows "loop c buf (s # ss) = prepend es (loop c buf' ss)"
  using assms by simp

lemma drain_nil: "drainEP0Events c [] = (Reading, replicate (evSize c) 0, [])"
  by (simp add: drainEP0Events_def)

lemma replicate12: "replicate 12 x = [x, x, x, x, x, x, x, x, x, x, x, x]"
  by (simp add: numeral_eq_Suc)

lemma loop_failures:
  "loop c buf (map (\<lambda>(n, r, w). \<lparr> read_res = ReadErr (Errno n), ready_val = r, write_res = w \<rparr>) fs @ post)
     = prepend
         (concat (map (\<lambda>(n, r, w).
            [EvRead,
             EvLog Warn ''ep0 read events failed; retrying''
               [(''err'', VErr (Errno n)), (''delay'', VDur 1000000000)],
             EvSleep 1000000000]) fs))
         (loop c buf post)"
proof (induction fs)
  case Nil
  show ?case by (cases "loop c buf post") simp
next
  case (Cons f fs)
  obtain n r w where f: "f = (n, r, w)" by (cases f)
  let ?s = "\<lparr> read_res = ReadErr (Errno n), ready_val = r, write_res = w \<rparr>"
  have "iteration c buf ?s =
     (Continue, buf,
      [EvRead,
       EvLog Warn ''ep0 read events failed; retrying''
         [(''err'', VErr (Errno n)), (''delay'', VDur 1000000000)],
       EvSleep 1000000000])"
    using iteration_fail [of ?s "Errno n" c buf]
    by (simp add: ep0ReadRetryDelay_def Second_def)
  then show ?case using Cons.IH f
    by (simp add: prepend_prepend del: prepend.simps)
qed

section \<open>The claims\<close>

text \<open>
  Claim C1.  Let the loop be reading after the reads \<open>pre\<close>, and let the next read
  deliver a full frame (at least \<open>evSize\<close> bytes) whose byte 8 is the setup
  discriminator and whose first eight bytes decode to a request that is not the vendor
  ready request.  Then what the loop does for this frame, after the read, contains
  exactly one write, and that write has length zero; no further read happens in between,
  and the loop goes on with the following reads \<open>post\<close>.  This holds whether the write
  itself succeeds or fails.  The frame size is assumed to cover byte 8, as the loop
  itself assumes.
\<close>

theorem unrecognized_setup_stalls:
  assumes "8 < evSize c" and "drainEP0Events c pre = (Reading, buf, es0)"
    and "read_res s = ReadOk d" and "evSize c \<le> length d"
    and "uint (d ! 8) = evTypeSetup c"
    and "parseCtrlReq (take 8 d) = Some req" and "\<not> isReadyReq c req"
  shows "\<exists>es. drainEP0Events c (pre @ s # post)
             = prepend (es0 @ EvRead # es) (loop c (take (evSize c) d) post)
           \<and> writes_of es = [[]] \<and> EvRead \<notin> set es"
proof -
  let ?es = "handleSetup c req (ready_val s) (write_res s)"
  have len: "length buf = evSize c" using assms(2) by (rule drain_extend(2))
  have "iteration c buf s = (Continue, take (evSize c) d, EvRead # ?es)"
    using assms(3) len assms(4) assms(1) assms(5) assms(6) by (rule iteration_setup)
  then have "loop c buf (s # post) = prepend (EvRead # ?es) (loop c (take (evSize c) d) post)"
    by (rule loop_step_continue)
  then have "drainEP0Events c (pre @ s # post)
      = prepend (es0 @ EvRead # ?es) (loop c (take (evSize c) d) post)"
    using drain_extend(1) [OF assms(2), of "s # post"] by (simp add: prepend_prepend)
  moreover have "writes_of ?es = [[]]" "EvRead \<notin> set ?es"
    using assms(7) by (simp_all add: handleSetup_stall)
  ultimately show ?thesis by blast
qed

theorem unrecognized_setup_stalls_witness:
  "8 < evSize sample_consts \<and>
   drainEP0Events sample_consts [] = (Reading, replicate 12 0, []) \<and>
   read_res \<lparr> read_res = ReadOk [65, 90, 0, 0, 0, 0, 8, 0, 4, 0, 0, 0], ready_val = 1, write_res = None \<rparr>
     = ReadOk [65, 90, 0, 0, 0, 0, 8, 0, 4, 0, 0, 0] \<and>
   evSize sample_consts \<le> length [65, 90, 0, 0, 0, 0, 8, 0, 4, 0, 0, 0 :: byte] \<and>
   uint ([65, 90, 0, 0, 0, 0, 8, 0, 4, 0, 0, 0 :: byte] ! 8) = evTypeSetup sample_consts \<and>
   parseCtrlReq (take 8 [65, 90, 0, 0, 0, 0, 8, 0, 4, 0, 0, 0])
     = Some \<lparr> bmRequestType = 65, bRequest = 90, wValue = 0, wIndex = 0, wLength = 8 \<rparr> \<and>
   \<not> isReadyReq sample_consts \<lparr> bmRequestType = 65, bRequest = 90, wValue = 0, wIndex = 0, wLength = 8 \<rparr> \<and>
   (\<exists>es. drainEP0Events sample_consts
            [\<lparr> read_res = ReadOk [65, 90, 0, 0, 0, 0, 8, 0, 4, 0, 0, 0], ready_val = 1, write_res = None \<rparr>]
          = (Reading, [65, 90, 0, 0, 0, 0, 8, 0, 4, 0, 0, 0], EvRead # es)
        \<and> writes_of es = [[]] \<and> EvRead \<notin> set es)"
proof -
  let ?d = "[65, 90, 0, 0, 0, 0, 8, 0, 4, 0, 0, 0 :: byte]"
  let ?s = "\<lparr> read_res = ReadOk ?d, ready_val = 1, write_res = None \<rparr>"
  let ?req = "\<lparr> bmRequestType = 65, bRequest = 90, wValue = 0, wIndex = 0, wLength = 8 \<rparr>"
  have h1: "8 < evSize sample_consts" by (simp add: sample_consts_def)
  have h2: "drainEP0Events sample_consts [] = (Reading, replicate 12 0, [])"
    by (simp add: drain_nil sample_consts_def)
  have h3: "read_res ?s = ReadOk ?d" by simp
  have h4: "evSize sample_consts \<le> length ?d" by (simp add: sample_consts_def)
  have h5: "uint (?d ! 8) = evTypeSetup sample_consts" by (simp add: sample_consts_def)
  have h6: "parseCtrlReq (take 8 ?d) = Some ?req" by (simp add: le_uint16_def)
  have h7: "\<not> isReadyReq sample_consts ?req" by (simp add: isReadyReq_def sample_consts_def)
  from unrecognized_setup_stalls [OF h1 h2 h3 h4 h5 h6 h7, of "[]"]
  have "\<exists>es. drainEP0Events sample_consts [?s] = (Reading, ?d, EvRead # es)
        \<and> writes_of es = [[]] \<and> EvRead \<notin> set es"
    by (simp add: sample_consts_def)
  with h1 h2 h3 h4 h5 h6 h7 show ?thesis by blast
qed

text \<open>
  Claim C2.  For a recognized ready request with requested length \<open>L\<close> and any value
  of the readiness flag, the loop writes exactly once; the bytes written are
  \<open>min L 8\<close> long and are a prefix of the eight bytes \<open>TZSG\<close>, \<open>lo\<close>, \<open>hi\<close>, the
  readiness byte and a zero padding byte, where \<open>lo + 256 * hi\<close> is the protocol
  version (little-endian).
\<close>

theorem vendor_reply_layout:
  assumes "isReadyReq c req"
  shows "\<exists>w lo hi. writes_of (handleSetup c req rdy we) = [w]
           \<and> length w = min (unat (wLength req)) 8
           \<and> prefix w (map of_char ''TZSG'' @ [lo, hi] @ [ucast rdy] @ [0])
           \<and> unat lo + 256 * unat hi = unat (protoVersion c)"
proof -
  let ?pv = "protoVersion c"
  let ?w = "take (min (unat (wLength req)) 8) (vendorReply ?pv rdy)"
  have "writes_of (handleSetup c req rdy we) = [?w]"
    using assms by (rule handleSetup_ready)
  moreover have "length ?w = min (unat (wLength req)) 8"
    by (simp add: vendorReply_bytes)
  moreover have "vendorReply ?pv rdy
      = map of_char ''TZSG'' @ [ucast ?pv, ucast (drop_bit 8 ?pv)] @ [ucast rdy] @ [0]"
    by (simp add: vendorReply_bytes)
  then have "prefix ?w (map of_char ''TZSG'' @ [ucast ?pv, ucast (drop_bit 8 ?pv)] @ [ucast rdy] @ [0])"
    by (metis take_is_prefix)
  moreover have "unat (ucast ?pv :: byte) + 256 * unat (ucast (drop_bit 8 ?pv) :: byte) = unat ?pv"
    unfolding unat_ucast_hi by (simp add: unat_ucast_byte)
  ultimately show ?thesis by blast
qed

theorem vendor_reply_layout_witness:
  "isReadyReq sample_consts
     \<lparr> bmRequestType = 0xC1, bRequest = 90, wValue = 0, wIndex = 0, wLength = 3 \<rparr> \<and>
   (\<exists>w lo hi.
      writes_of (handleSetup sample_consts
        \<lparr> bmRequestType = 0xC1, bRequest = 90, wValue = 0, wIndex = 0, wLength = 3 \<rparr> 1 None) = [w]
      \<and> length w = 3
      \<and> prefix w (map of_char ''TZSG'' @ [lo, hi] @ [1] @ [0])
      \<and> unat lo + 256 * unat hi = 1) \<and>
   writes_of (handleSetup sample_consts
     \<lparr> bmRequestType = 0xC1, bRequest = 90, wValue = 0, wIndex = 0, wLength = 3 \<rparr> 1 None)
   = [[0x54, 0x5A, 0x53]]"
proof -
  let ?req = "\<lparr> bmRequestType = 0xC1, bRequest = 90, wValue = 0, wIndex = 0, wLength = 3 \<rparr>"
  have h: "isReadyReq sample_consts ?req"
    by (simp add: isReadyReq_def sample_consts_def)
  have "writes_of (handleSetup sample_consts ?req 1 None) = [[0x54, 0x5A, 0x53]]"
    by (simp add: handleSetup_ready [OF h] vendorReply_bytes)
  with h vendor_reply_layout [OF h, of 1 None] show ?thesis
    by (simp add: sample_consts_def)
qed

text \<open>
  Claim C3.  On every input of eight bytes the codec produces a packet whose request
  type is byte 0, whose request is byte 1, and whose length is byte 6 plus 256 times
  byte 7.  The instance that follows decodes the bytes \<open>0x05, 0x00\<close> to the length 5.
\<close>

theorem parseCtrlReq_fields:
  assumes "length b = 8"
  shows "\<exists>req. parseCtrlReq b = Some req \<and> bmRequestType req = b ! 0 \<and> bRequest req = b ! 1
           \<and> unat (wLength req) = unat (b ! 6) + 256 * unat (b ! 7)"
proof -
  from assms obtain b0 b1 b2 b3 b4 b5 b6 b7 where b: "b = [b0, b1, b2, b3, b4, b5, b6, b7]"
    by (rule length8_cases)
  show ?thesis unfolding b by (simp add: unat_le_uint16)
qed

theorem parseCtrlReq_fields_witness:
  "length [0xC1, 90, 0, 0, 0, 0, 5, 0 :: byte] = 8 \<and>
   (\<exists>req. parseCtrlReq [0xC1, 90, 0, 0, 0, 0, 5, 0] = Some req \<and> bmRequestType req = 0xC1
      \<and> bRequest req = 90 \<and> unat (wLength req) = 5)"
  using parseCtrlReq_fields [of "[0xC1, 90, 0, 0, 0, 0, 5, 0]"] by simp

text \<open>
  Claim C4.  If the loop is reading and the next read returns end-of-stream, the
  function returns, and nothing is done after that read: the events are those before it
  and the read itself, so no write.  And, for every sequence of read results, the loop
  has returned exactly when one of the reads returned end-of-stream; otherwise it is
  still reading (it has neither returned nor panicked).
\<close>

theorem eof_stops_loop:
  assumes "8 < evSize c"
  shows "(drainEP0Events c pre = (Reading, buf, es0) \<and> read_res s = ReadErr EOF
            \<longrightarrow> drainEP0Events c (pre @ s # post) = (Stopped, buf, es0 @ [EvRead]))
         \<and> fst (drainEP0Events c script)
             = (if \<exists>x\<in>set script. read_res x = ReadErr EOF then Stopped else Reading)"
proof (intro conjI impI)
  assume a: "drainEP0Events c pre = (Reading, buf, es0) \<and> read_res s = ReadErr EOF"
  then have "iteration c buf s = (Return, buf, [EvRead])" by (simp add: iteration_eof)
  then have "loop c buf (s # post) = (Stopped, buf, [EvRead])" by simp
  then show "drainEP0Events c (pre @ s # post) = (Stopped, buf, es0 @ [EvRead])"
    using a drain_extend(1) [of c pre buf es0 "s # post"] by simp
next
  show "fst (drainEP0Events c script)
      = (if \<exists>x\<in>set script. read_res x = ReadErr EOF then Stopped else Reading)"
    unfolding drainEP0Events_def using assms by (intro loop_status) simp_all
qed

theorem eof_stops_loop_witness:
  "8 < evSize sample_consts \<and>
   drainEP0Events sample_consts [\<lparr> read_res = ReadErr (Errno 5), ready_val = 0, write_res = None \<rparr>]
     = (Reading, replicate 12 0,
        [EvRead,
         EvLog Warn ''ep0 read events failed; retrying'' [(''err'', VErr (Errno 5)), (''delay'', VDur 1000000000)],
         EvSleep 1000000000]) \<and>
   read_res \<lparr> read_res = ReadErr EOF, ready_val = 0, write_res = None \<rparr> = ReadErr EOF \<and>
   drainEP0Events sample_consts
     [\<lparr> read_res = ReadErr (Errno 5), ready_val = 0, write_res = None \<rparr>,
      \<lparr> read_res = ReadErr EOF, ready_val = 0, write_res = None \<rparr>]
     = (Stopped, replicate 12 0,
        [EvRead,
         EvLog Warn ''ep0 read events failed; retrying'' [(''err'', VErr (Errno 5)), (''delay'', VDur 1000000000)],
         EvSleep 1000000000,
         EvRead]) \<and>
   fst (drainEP0Events sample_consts
     [\<lparr> read_res = ReadErr (Errno 5), ready_val = 0, write_res = None \<rparr>,
      \<lparr> read_res = ReadErr EOF, ready_val = 0, write_res = None \<rparr>]) = Stopped"
proof -
  let ?f = "\<lparr> read_res = ReadErr (Errno 5), ready_val = 0, write_res = None \<rparr>"
  let ?e = "\<lparr> read_res = ReadErr EOF, ready_val = 0 :: u32, write_res = None :: io_err option \<rparr>"
  let ?es = "[EvRead,
         EvLog Warn ''ep0 read events failed; retrying'' [(''err'', VErr (Errno 5)), (''delay'', VDur 1000000000)],
         EvSleep 1000000000]"
  have h1: "8 < evSize sample_consts" by (simp add: sample_consts_def)
  have h2: "drainEP0Events sample_consts [?f] = (Reading, replicate 12 0, ?es)"
    by (simp add: drainEP0Events_def iteration_def sample_consts_def ep0ReadRetryDelay_def Second_def)
  have h3: "read_res ?e = ReadErr EOF" by simp
  from eof_stops_loop [OF h1, of "[?f]" "replicate 12 0" ?es ?e "[]" "[?f, ?e]"] h2 h3
  have "drainEP0Events sample_consts [?f, ?e] = (Stopped, replicate 12 0, ?es @ [EvRead])"
    and "fst (drainEP0Events sample_consts [?f, ?e]) = Stopped"
    by simp_all
  with h1 h2 h3 show ?thesis by simp
qed

text \<open>
  Claim C5.  If the loop is reading and the next reads, however many, all fail with an
  error other than end-of-stream, then each of them is followed by one warning and a
  sleep of 1000000000 nanoseconds (one second) and nothing else, the buffer is unchanged,
  and the loop goes on with the reads that follow; with none following, it is reading.
\<close>

theorem read_failures_retry:
  assumes "drainEP0Events c pre = (Reading, buf, es0)"
  shows "drainEP0Events c
           (pre @ map (\<lambda>(n, r, w). \<lparr> read_res = ReadErr (Errno n), ready_val = r, write_res = w \<rparr>) fs @ post)
         = prepend
             (es0 @ concat (map (\<lambda>(n, r, w).
                [EvRead,
                 EvLog Warn ''ep0 read events failed; retrying''
                   [(''err'', VErr (Errno n)), (''delay'', VDur 1000000000)],
                 EvSleep 1000000000]) fs))
             (loop c buf post)"
  using drain_extend(1) [OF assms] by (simp add: loop_failures prepend_prepend del: prepend.simps)

theorem read_failures_retry_witness:
  "drainEP0Events sample_consts [] = (Reading, replicate 12 0, []) \<and>
   drainEP0Events sample_consts
     [\<lparr> read_res = ReadErr (Errno 5), ready_val = 0, write_res = None \<rparr>,
      \<lparr> read_res = ReadErr (Errno 19), ready_val = 1, write_res = None \<rparr>]
   = (Reading, replicate 12 0,
      [EvRead,
       EvLog Warn ''ep0 read events failed; retrying'' [(''err'', VErr (Errno 5)), (''delay'', VDur 1000000000)],
       EvSleep 1000000000,
       EvRead,
       EvLog Warn ''ep0 read events failed; retrying'' [(''err'', VErr (Errno 19)), (''delay'', VDur 1000000000)],
       EvSleep 1000000000])"
proof -
  have h: "drainEP0Events sample_consts [] = (Reading, replicate 12 0, [])"
    by (simp add: drain_nil sample_consts_def)
  from read_failures_retry [OF h, of "[(5, 0, None), (19, 1, None)]" "[]"]
  show ?thesis using h by simp
qed

text \<open>
  Claim C6.  If the loop is reading and the next read delivers a full frame whose byte
  8 is not the setup discriminator, the only event for this frame is the read itself (no
  write, no log line), and the loop goes on with the following reads.
\<close>

theorem non_setup_event_ignored:
  assumes "8 < evSize c" and "drainEP0Events c pre = (Reading, buf, es0)"
    and "read_res s = ReadOk d" and "evSize c \<le> length d"
    and "uint (d ! 8) \<noteq> evTypeSetup c"
  shows "drainEP0Events c (pre @ s # post)
           = prepend (es0 @ [EvRead]) (loop c (take (evSize c) d) post)"
proof -
  have len: "length buf = evSize c" using assms(2) by (rule drain_extend(2))
  have "iteration c buf s = (Continue, take (evSize c) d, [EvRead])"
    using assms(3) len assms(4) assms(1) assms(5) by (rule iteration_not_setup)
  then have "loop c buf (s # post) = prepend [EvRead] (loop c (take (evSize c) d) post)"
    by (rule loop_step_continue)
  then show ?thesis
    using drain_extend(1) [OF assms(2), of "s # post"] by (simp add: prepend_prepend)
qed

theorem non_setup_event_ignored_witness:
  "8 < evSize sample_consts \<and>
   drainEP0Events sample_consts [] = (Reading, replicate 12 0, []) \<and>
   read_res \<lparr> read_res = ReadOk [0, 0, 0, 0, 0, 0, 0, 0, 2, 0, 0, 0], ready_val = 1, write_res = None \<rparr>
     = ReadOk [0, 0, 0, 0, 0, 0, 0, 0, 2, 0, 0, 0] \<and>
   evSize sample_consts \<le> length [0, 0, 0, 0, 0, 0, 0, 0, 2, 0, 0, 0 :: byte] \<and>
   uint ([0, 0, 0, 0, 0, 0, 0, 0, 2, 0, 0, 0 :: byte] ! 8) \<noteq> evTypeSetup sample_consts \<and>
   drainEP0Events sample_consts
       [\<lparr> read_res = ReadOk [0, 0, 0, 0, 0, 0, 0, 0, 2, 0, 0, 0], ready_val = 1, write_res = None \<rparr>]
     = (Reading, [0, 0, 0, 0, 0, 0, 0, 0, 2, 0, 0, 0], [EvRead])"
proof -
  let ?d = "[0, 0, 0, 0, 0, 0, 0, 0, 2, 0, 0, 0 :: byte]"
  let ?s = "\<lparr> read_res = ReadOk ?d, ready_val = 1, write_res = None \<rparr>"
  have h1: "8 < evSize sample_consts" by (simp add: sample_consts_def)
  have h2: "drainEP0Events sample_consts [] = (Reading, replicate 12 0, [])"
    by (simp add: drain_nil sample_consts_def)
  have h3: "read_res ?s = ReadOk ?d" by simp
  have h4: "evSize sample_consts \<le> length ?d" by (simp add: sample_consts_def)
  have h5: "uint (?d ! 8) \<noteq> evTypeSetup sample_consts" by (simp add: sample_consts_def)
  from non_setup_event_ignored [OF h1 h2 h3 h4 h5, of "[]"]
  have "drainEP0Events sample_consts [?s] = (Reading, ?d, [EvRead])"
    by (simp add: sample_consts_def)
  with h1 h2 h3 h4 h5 show ?thesis by blast
qed

text \<open>
  Claim C7.  If the loop is reading and the next read succeeds with fewer than
  \<open>evSize\<close> bytes, the events for it are the read and one warning carrying the number
  of bytes: no request is decoded and nothing is written.  The loop goes on with the
  following reads; the short read has only overwritten the start of the buffer.
\<close>

theorem short_read_discarded:
  assumes "drainEP0Events c pre = (Reading, buf, es0)"
    and "read_res s = ReadOk d" and "length d < evSize c"
  shows "drainEP0Events c (pre @ s # post)
           = prepend (es0 @ [EvRead, EvLog Warn ''ep0 read event too short'' [(''n'', VInt (int (length d)))]])
               (loop c (d @ drop (length d) buf) post)"
proof -
  have len: "length buf = evSize c" using assms(1) by (rule drain_extend(2))
  have "iteration c buf s = (Continue, d @ drop (length d) buf,
      [EvRead, EvLog Warn ''ep0 read event too short'' [(''n'', VInt (int (length d)))]])"
    using assms(2) len assms(3) by (rule iteration_short)
  then have "loop c buf (s # post)
      = prepend [EvRead, EvLog Warn ''ep0 read event too short'' [(''n'', VInt (int (length d)))]]
          (loop c (d @ drop (length d) buf) post)"
    by (rule loop_step_continue)
  then show ?thesis
    using drain_extend(1) [OF assms(1), of "s # post"] by (simp add: prepend_prepend)
qed

theorem short_read_discarded_witness:
  "drainEP0Events sample_consts [] = (Reading, replicate 12 0, []) \<and>
   read_res \<lparr> read_res = ReadOk [193, 90, 0], ready_val = 1, write_res = None \<rparr> = ReadOk [193, 90, 0] \<and>
   length [193, 90, 0 :: byte] < evSize sample_consts \<and>
   drainEP0Events sample_consts [\<lparr> read_res = ReadOk [193, 90, 0], ready_val = 1, write_res = None \<rparr>]
     = (Reading, [193, 90, 0, 0, 0, 0, 0, 0, 0, 0, 0, 0],
        [EvRead, EvLog Warn ''ep0 read event too short'' [(''n'', VInt 3)]])"
proof -
  let ?d = "[193, 90, 0 :: byte]"
  let ?s = "\<lparr> read_res = ReadOk ?d, ready_val = 1, write_res = None \<rparr>"
  have h1: "drainEP0Events sample_consts [] = (Reading, replicate 12 0, [])"
    by (simp add: drain_nil sample_consts_def)
  have h2: "read_res ?s = ReadOk ?d" by simp
  have h3: "length ?d < evSize sample_consts" by (simp add: sample_consts_def)
  from short_read_discarded [OF h1 h2 h3, of "[]"]
  have "drainEP0Events sample_consts [?s]
     = (Reading, [193, 90, 0, 0, 0, 0, 0, 0, 0, 0, 0, 0],
        [EvRead, EvLog Warn ''ep0 read event too short'' [(''n'', VInt 3)]])"
    by (simp add: replicate12)
  with h1 h2 h3 show ?thesis by blast
qed

text \<open>
  Claim C8, as amended.  The readiness flag is a 32-bit word and the reply holds a byte:
  the byte at offset 6 of the reply is the stored value modulo 256.  It is the stored
  value itself whenever that value is below 256.
\<close>

theorem readiness_byte_low8:
  "unat (vendorReply pv r ! 6) = unat r mod 256"
  by (simp add: vendorReply_bytes unat_ucast_byte)

text \<open>
  The claim as stated (the byte equals every stored value verbatim, nonzero meaning
  ready) fails when the flag holds 256: the byte at offset 6 is then 0.
\<close>

theorem readiness_byte_counterexample:
  "unat (vendorReply 1 256 ! 6) \<noteq> unat (256 :: u32) \<and> vendorReply 1 256 ! 6 = 0"
  by (simp add: vendorReply_bytes)

text \<open>
  Claim C9.  What is written for a recognized ready request is determined by the
  requested length and the value of the readiness flag: two such requests with the same
  length (whatever their \<open>wValue\<close> and \<open>wIndex\<close>, and whatever the outcome of the
  write) under the same readiness value write the same bytes.
\<close>

theorem reply_depends_on_length_and_readiness:
  assumes "isReadyReq c req1" "isReadyReq c req2" "wLength req1 = wLength req2"
  shows "writes_of (handleSetup c req1 rdy w1) = writes_of (handleSetup c req2 rdy w2)"
  using assms by (simp add: handleSetup_ready)

theorem reply_depends_on_length_and_readiness_witness:
  "isReadyReq sample_consts
     \<lparr> bmRequestType = 0xC1, bRequest = 90, wValue = 0, wIndex = 0, wLength = 3 \<rparr> \<and>
   isReadyReq sample_consts
     \<lparr> bmRequestType = 0xC1, bRequest = 90, wValue = 7, wIndex = 9, wLength = 3 \<rparr> \<and>
   writes_of (handleSetup sample_consts
     \<lparr> bmRequestType = 0xC1, bRequest = 90, wValue = 0, wIndex = 0, wLength = 3 \<rparr> 1 None)
   = writes_of (handleSetup sample_consts
     \<lparr> bmRequestType = 0xC1, bRequest = 90, wValue = 7, wIndex = 9, wLength = 3 \<rparr> 1 (Some (Errno 5)))"
  using reply_depends_on_length_and_readiness [of sample_consts
      "\<lparr> bmRequestType = 0xC1, bRequest = 90, wValue = 0, wIndex = 0, wLength = 3 \<rparr>"
      "\<lparr> bmRequestType = 0xC1, bRequest = 90, wValue = 7, wIndex = 9, wLength = 3 \<rparr>"
      1 None "Some (Errno 5)"]
  by (simp add: isReadyReq_def sample_consts_def)

text \<open>
  Claim C10.  For a full setup frame that decodes to a recognized ready request with
  \<open>wLength = 0\<close>, the pass through the loop body performs exactly one write, of zero
  bytes; this is the same as what is written for any request that is not recognized.
\<close>

theorem zero_length_reply_is_zlp:
  assumes "8 < evSize c" and "length buf = evSize c"
    and "read_res s = ReadOk d" and "evSize c \<le> length d"
    and "uint (d ! 8) = evTypeSetup c"
    and "parseCtrlReq (take 8 d) = Some req"
    and "isReadyReq c req" and "wLength req = 0"
    and "\<not> isReadyReq c req'"
  shows "writes_of (snd (snd (iteration c buf s))) = [[]]
         \<and> writes_of (snd (snd (iteration c buf s))) = writes_of (handleSetup c req' rdy' w')"
proof -
  have "iteration c buf s
      = (Continue, take (evSize c) d, EvRead # handleSetup c req (ready_val s) (write_res s))"
    using assms(3) assms(2) assms(4) assms(1) assms(5) assms(6) by (rule iteration_setup)
  then have "writes_of (snd (snd (iteration c buf s)))
      = writes_of (handleSetup c req (ready_val s) (write_res s))"
    by simp
  also have "\<dots> = [[]]"
    using assms(7) assms(8) by (simp add: handleSetup_ready)
  finally show ?thesis using assms(9) by (simp add: handleSetup_stall)
qed

theorem zero_length_reply_is_zlp_witness:
  "8 < evSize sample_consts \<and> length (replicate 12 (0 :: byte)) = evSize sample_consts \<and>
   read_res \<lparr> read_res = ReadOk [193, 90, 0, 0, 0, 0, 0, 0, 4, 0, 0, 0], ready_val = 1, write_res = None \<rparr>
     = ReadOk [193, 90, 0, 0, 0, 0, 0, 0, 4, 0, 0, 0] \<and>
   evSize sample_consts \<le> length [193, 90, 0, 0, 0, 0, 0, 0, 4, 0, 0, 0 :: byte] \<and>
   uint ([193, 90, 0, 0, 0, 0, 0, 0, 4, 0, 0, 0 :: byte] ! 8) = evTypeSetup sample_consts \<and>
   parseCtrlReq (take 8 [193, 90, 0, 0, 0, 0, 0, 0, 4, 0, 0, 0])
     = Some \<lparr> bmRequestType = 193, bRequest = 90, wValue = 0, wIndex = 0, wLength = 0 \<rparr> \<and>
   isReadyReq sample_consts \<lparr> bmRequestType = 193, bRequest = 90, wValue = 0, wIndex = 0, wLength = 0 \<rparr> \<and>
   wLength \<lparr> bmRequestType = 193, bRequest = 90, wValue = 0, wIndex = 0, wLength = 0 \<rparr> = 0 \<and>
   \<not> isReadyReq sample_consts \<lparr> bmRequestType = 65, bRequest = 90, wValue = 0, wIndex = 0, wLength = 8 \<rparr> \<and>
   writes_of (snd (snd (iteration sample_consts (replicate 12 0)
     \<lparr> read_res = ReadOk [193, 90, 0, 0, 0, 0, 0, 0, 4, 0, 0, 0], ready_val = 1, write_res = None \<rparr>))) = [[]] \<and>
   writes_of (snd (snd (iteration sample_consts (replicate 12 0)
     \<lparr> read_res = ReadOk [193, 90, 0, 0, 0, 0, 0, 0, 4, 0, 0, 0], ready_val = 1, write_res = None \<rparr>)))
   = writes_of (handleSetup sample_consts
       \<lparr> bmRequestType = 65, bRequest = 90, wValue = 0, wIndex = 0, wLength = 8 \<rparr> 0 (Some (Errno 32)))"
proof -
  let ?d = "[193, 90, 0, 0, 0, 0, 0, 0, 4, 0, 0, 0 :: byte]"
  let ?s = "\<lparr> read_res = ReadOk ?d, ready_val = 1, write_res = None \<rparr>"
  let ?req = "\<lparr> bmRequestType = 193, bRequest = 90, wValue = 0, wIndex = 0, wLength = 0 \<rparr>"
  let ?req' = "\<lparr> bmRequestType = 65, bRequest = 90, wValue = 0, wIndex = 0, wLength = 8 \<rparr>"
  have h1: "8 < evSize sample_consts" by (simp add: sample_consts_def)
  have h2: "length (replicate 12 (0 :: byte)) = evSize sample_consts" by (simp add: sample_consts_def)
  have h3: "read_res ?s = ReadOk ?d" by simp
  have h4: "evSize sample_consts \<le> length ?d" by (simp add: sample_consts_def)
  have h5: "uint (?d ! 8) = evTypeSetup sample_consts" by (simp add: sample_consts_def)
  have h6: "parseCtrlReq (take 8 ?d) = Some ?req" by (simp add: le_uint16_def)
  have h7: "isReadyReq sample_consts ?req" by (simp add: isReadyReq_def sample_consts_def)
  have h8: "wLength ?req = 0" by simp
  have h9: "\<not> isReadyReq sample_consts ?req'" by (simp add: isReadyReq_def sample_consts_def)
  note inst = zero_length_reply_is_zlp [OF h1 h2 h3 h4 h5 h6 h7 h8 h9, of 0 "Some (Errno 32)"]
  with h1 h2 h3 h4 h5 h6 h7 h8 h9 show ?thesis by blast
qed

end
